theory Spec2Isabelle
  imports Main
begin

section \<open>The check runner of supervisor\_checks\<close>

text \<open>
  This theory embeds \<^verbatim>\<open>supervisor_checks/check_runner.py\<close>: the class
  \<^verbatim>\<open>CheckRunner\<close> with its main loop \<^verbatim>\<open>run\<close>, the dispatcher
  \<^verbatim>\<open>_check_processes\<close>, the per-process sequence \<^verbatim>\<open>_check_and_restart\<close>, the
  restart transition \<^verbatim>\<open>_restart_process\<close> and the logger \<^verbatim>\<open>_log\<close>.
  A leading underscore is not part of an Isabelle name, so \<^verbatim>\<open>_restart_process\<close> is
  \<open>restart_process\<close> and so on.

  Everything the methods do to the outside (a log line, an RPC call, a check being called,
  the listener handshake) is appended to a trace, in program order. What the outside
  answers (the supervisor's RPC replies, the verdict of a check) is read from oracles that
  see the trace so far, so a reply may differ from call to call.
\<close>

subsection \<open>Constants of the module\<close>

definition STATE_KEY :: string where "STATE_KEY = ''state''"
definition NAME_KEY :: string where "NAME_KEY = ''name''"
definition GROUP_KEY :: string where "GROUP_KEY = ''group''"
definition EVENT_NAME_KEY :: string where "EVENT_NAME_KEY = ''eventname''"

definition MAX_THREADS :: nat where "MAX_THREADS = 16"

definition TICK_EVENTS :: "string set" where
  "TICK_EVENTS = {''TICK_5'', ''TICK_60'', ''TICK_3600''}"

text \<open>
  \<^verbatim>\<open>ProcessStates.RUNNING\<close> comes from the supervisor library
  (\<^verbatim>\<open>supervisor.states\<close>), where it is the integer 20.
\<close>

definition RUNNING :: int where "RUNNING = 20"

subsection \<open>Data\<close>

text \<open>
  A process descriptor is the struct that \<^verbatim>\<open>getAllProcessInfo\<close> and
  \<^verbatim>\<open>getProcessInfo\<close> return. The code reads its keys \<^verbatim>\<open>'name'\<close>, \<^verbatim>\<open>'group'\<close> and
  \<^verbatim>\<open>'state'\<close>, which the RPC interface always sends; the record has these three fields.
\<close>

record process_spec =
  p_name :: string
  p_group :: string
  p_state :: int

text \<open>
  The exceptions the code can meet. \<open>Fault\<close> is \<^verbatim>\<open>xmlrpclib.Fault\<close>, \<open>KeyError\<close> a
  missing dictionary key, \<open>OtherError\<close> any other subclass of \<^verbatim>\<open>Exception\<close> (a socket
  error, a protocol error, whatever a check raises). Each carries the text that
  \<^verbatim>\<open>%s\<close> renders for it.
\<close>

datatype exc = Fault string | KeyError string | OtherError string

fun str_exc :: "exc \<Rightarrow> string" where
  "str_exc (Fault s) = s"
| "str_exc (KeyError k) = [CHR 0x27] @ k @ [CHR 0x27]"
| "str_exc (OtherError s) = s"

datatype rpc_call =
    GetAllProcessInfo
  | GetProcessInfo string
  | StopProcess string
  | StartProcess string bool

datatype event =
    Log string
  | Rpc rpc_call
  | GetRPCInterface
  | CheckCall string string
  | PoolCreate nat
  | PoolSubmit string
  | PoolShutdown
  | Wait
  | Ack

type_synonym trace = "event list"

text \<open>
  \<open>Log m\<close>: \<^verbatim>\<open>self._log\<close> was called and \<open>m\<close> is the formatted message
  (\<^verbatim>\<open>msg % args\<close>). \<open>Rpc c\<close>: the call \<open>c\<close> was sent to the supervisor.
  \<open>GetRPCInterface\<close>: \<^verbatim>\<open>childutils.getRPCInterface\<close> built a client.
  \<open>CheckCall n p\<close>: the check named \<open>n\<close> was called on the process named \<open>p\<close>.
  \<open>PoolCreate k\<close>, \<open>PoolSubmit p\<close>, \<open>PoolShutdown\<close>: the thread pool was built with
  \<open>k\<close> workers, a task for process \<open>p\<close> was submitted, the \<^verbatim>\<open>with\<close> block was left.
  \<open>Wait\<close>: \<^verbatim>\<open>childutils.listener.wait\<close> was called. \<open>Ack\<close>:
  \<^verbatim>\<open>childutils.listener.ok\<close> wrote the acknowledgement.
\<close>

text \<open>
  A check is a callable object with a \<^verbatim>\<open>NAME\<close>; calling it returns a verdict or raises.
\<close>

record check =
  NAME :: string
  evaluate :: "trace \<Rightarrow> process_spec \<Rightarrow> exc + bool"

text \<open>
  The supervisor's side: the four RPC methods the code calls, each answering or raising,
  and \<^verbatim>\<open>make_namespec\<close> of the supervisor library, which builds the qualified name.
\<close>

record rpc_env =
  getAllProcessInfo :: "trace \<Rightarrow> exc + process_spec list"
  getProcessInfo :: "trace \<Rightarrow> string \<Rightarrow> exc + process_spec"
  stopProcess :: "trace \<Rightarrow> string \<Rightarrow> exc + unit"
  startProcess :: "trace \<Rightarrow> string \<Rightarrow> bool \<Rightarrow> exc + unit"
  make_namespec :: "string \<Rightarrow> string \<Rightarrow> string"

text \<open>The attributes of a \<^verbatim>\<open>CheckRunner\<close> that the methods read.\<close>

record check_runner =
  runner_name :: string
  process_group :: string
  checks_config :: string
  checks :: "check list"

subsection \<open>The restart transition\<close>

text \<open>
  \<^verbatim>\<open>_restart_process\<close>. The state test is \<^verbatim>\<open>is ProcessStates.RUNNING\<close>, identity
  of two small integers, which CPython decides as equality. Only \<^verbatim>\<open>xmlrpclib.Fault\<close>
  is caught around the stop and the start call; \<^verbatim>\<open>getProcessInfo\<close> is not guarded.
\<close>

definition start_step :: "rpc_env \<Rightarrow> string \<Rightarrow> trace \<Rightarrow> (exc + unit) \<times> trace" where
  "start_step env name_spec tr =
     (let tr1 = tr @ [Log (''Starting process '' @ name_spec)];
          tr2 = tr1 @ [Rpc (StartProcess name_spec False)]
      in case startProcess env tr1 name_spec False of
           Inr _ \<Rightarrow> (Inr (), tr2)
         | Inl (Fault f) \<Rightarrow>
             (Inr (), tr2 @ [Log (''Failed to start process '' @ name_spec @ '': '' @ str_exc (Fault f))])
         | Inl e \<Rightarrow> (Inl e, tr2))"

definition stop_step :: "rpc_env \<Rightarrow> string \<Rightarrow> trace \<Rightarrow> (exc + unit) \<times> trace" where
  "stop_step env name_spec tr =
     (let tr1 = tr @ [Log (''Trying to stop process '' @ name_spec)];
          tr2 = tr1 @ [Rpc (StopProcess name_spec)]
      in case stopProcess env tr1 name_spec of
           Inr _ \<Rightarrow> (Inr (), tr2 @ [Log (''Stopped process '' @ name_spec)])
         | Inl (Fault f) \<Rightarrow>
             (Inr (), tr2 @ [Log (''Failed to stop process '' @ name_spec @ '': '' @ str_exc (Fault f))])
         | Inl e \<Rightarrow> (Inl e, tr2))"

definition restart_process :: "rpc_env \<Rightarrow> process_spec \<Rightarrow> trace \<Rightarrow> (exc + unit) \<times> trace" where
  "restart_process env process_spec tr =
     (let name_spec = make_namespec env (p_group process_spec) (p_name process_spec);
          tr1 = tr @ [GetRPCInterface];
          tr2 = tr1 @ [Rpc (GetProcessInfo name_spec)]
      in case getProcessInfo env tr1 name_spec of
           Inl e \<Rightarrow> (Inl e, tr2)
         | Inr fresh \<Rightarrow>
             if p_state fresh = RUNNING then
               (case stop_step env name_spec tr2 of
                  (Inl e, tr3) \<Rightarrow> (Inl e, tr3)
                | (Inr _, tr3) \<Rightarrow> start_step env name_spec tr3)
             else
               (Inr (), tr2 @ [Log (name_spec @ '' not in RUNNING state, cannot restart'')]))"

subsection \<open>The checks of one process\<close>

text \<open>
  \<^verbatim>\<open>_check_and_restart\<close>: the \<^verbatim>\<open>for\<close> loop over \<^verbatim>\<open>self._checks\<close>. The
  \<^verbatim>\<open>try\<close> block holds the call of the check and, on a false verdict, the
  \<^verbatim>\<open>return self._restart_process(process_spec)\<close>; its handler
  \<^verbatim>\<open>except Exception\<close> logs and lets the loop go on. So an exception that leaves
  \<^verbatim>\<open>_restart_process\<close> is handled there as well.
\<close>

fun check_and_restart ::
  "rpc_env \<Rightarrow> check list \<Rightarrow> process_spec \<Rightarrow> trace \<Rightarrow> (exc + unit) \<times> trace" where
  "check_and_restart env [] process_spec tr = (Inr (), tr)"
| "check_and_restart env (c # cs) process_spec tr =
     (let tr1 = tr @ [Log (''Performing '' @ NAME c @ '' check for process name '' @ p_name process_spec)];
          tr2 = tr1 @ [CheckCall (NAME c) (p_name process_spec)]
      in case evaluate c tr1 process_spec of
           Inl e \<Rightarrow>
             check_and_restart env cs process_spec
               (tr2 @ [Log (NAME c @ '' check raised error for process '' @ p_name process_spec
                            @ '': '' @ str_exc e)])
         | Inr True \<Rightarrow>
             check_and_restart env cs process_spec
               (tr2 @ [Log (NAME c @ '' check succeeded for process '' @ p_name process_spec)])
         | Inr False \<Rightarrow>
             (case restart_process env process_spec
                     (tr2 @ [Log (NAME c @ '' check failed for process '' @ p_name process_spec
                                  @ ''. Trying to restart.'')]) of
                (Inr u, tr3) \<Rightarrow> (Inr u, tr3)
              | (Inl e, tr3) \<Rightarrow>
                  check_and_restart env cs process_spec
                    (tr3 @ [Log (NAME c @ '' check raised error for process '' @ p_name process_spec
                                 @ '': '' @ str_exc e)])))"

subsection \<open>The dispatcher\<close>

text \<open>\<^verbatim>\<open>_get_process_spec_list\<close>: one enumeration call, then the filter.\<close>

definition get_process_spec_list ::
  "rpc_env \<Rightarrow> check_runner \<Rightarrow> int option \<Rightarrow> trace \<Rightarrow> (exc + process_spec list) \<times> trace" where
  "get_process_spec_list env self st tr =
     (case getAllProcessInfo env tr of
        Inl e \<Rightarrow> (Inl e, tr @ [Rpc GetAllProcessInfo])
      | Inr all_specs \<Rightarrow>
          (Inr (filter (\<lambda>p. p_group p = process_group self \<and> (st = None \<or> Some (p_state p) = st))
                  all_specs),
           tr @ [Rpc GetAllProcessInfo]))"

text \<open>
  The pool of \<^verbatim>\<open>_check_processes\<close>. A task submitted to a
  \<^verbatim>\<open>ThreadPoolExecutor\<close> keeps its exception in its future, which the code never
  reads, and leaving the \<^verbatim>\<open>with\<close> block waits for every task. The model runs each task
  when it is submitted, one after the other: one of the schedules of the pool.
\<close>

fun pool_submit_all ::
  "rpc_env \<Rightarrow> check list \<Rightarrow> process_spec list \<Rightarrow> trace \<Rightarrow> trace" where
  "pool_submit_all env cs [] tr = tr"
| "pool_submit_all env cs (p # ps) tr =
     pool_submit_all env cs ps (snd (check_and_restart env cs p (tr @ [PoolSubmit (p_name p)])))"

definition check_processes :: "rpc_env \<Rightarrow> check_runner \<Rightarrow> trace \<Rightarrow> (exc + unit) \<times> trace" where
  "check_processes env self tr =
     (case get_process_spec_list env self (Some RUNNING) tr of
        (Inl e, tr1) \<Rightarrow> (Inl e, tr1)
      | (Inr process_specs, tr1) \<Rightarrow>
          if process_specs \<noteq> [] then
            if length process_specs = 1 then
              check_and_restart env (checks self) (process_specs ! 0) tr1
            else
              (Inr (), pool_submit_all env (checks self) process_specs (tr1 @ [PoolCreate MAX_THREADS])
                         @ [PoolShutdown])
          else
            (Inr (), tr1 @ [Log (''No processes in state RUNNING found for process group ''
                                 @ process_group self)]))"

subsection \<open>Signals and the main loop\<close>

text \<open>
  The five signals \<^verbatim>\<open>_install_signal_handlers\<close> installs the handler for, with their
  numbers on Linux. \<^verbatim>\<open>_signal_handler\<close> logs the number and sets the stop event.
\<close>

datatype signal = SIGINT | SIGUSR1 | SIGHUP | SIGTERM | SIGQUIT

fun signum :: "signal \<Rightarrow> string" where
  "signum SIGHUP = ''1''"
| "signum SIGINT = ''2''"
| "signum SIGQUIT = ''3''"
| "signum SIGUSR1 = ''10''"
| "signum SIGTERM = ''15''"

definition signal_handler :: "signal \<Rightarrow> trace \<Rightarrow> trace" where
  "signal_handler sig tr = tr @ [Log (''Got signal '' @ signum sig)]"

definition install_signal_handlers :: "trace \<Rightarrow> trace" where
  "install_signal_handlers tr = tr @ [Log ''Installing signal handlers.'']"

text \<open>
  What the loop receives, in order. \<open>Signalled s\<close>: a signal arrives while the loop is
  not blocked in the listener (the handler runs; the loop condition sees the stop event
  next time it is evaluated). \<open>Interrupted s\<close>: a signal arrives while
  \<^verbatim>\<open>listener.wait\<close> blocks, which then raises \<^verbatim>\<open>WaitInterrupted\<close>.
  \<open>Event h\<close>: \<^verbatim>\<open>listener.wait\<close> returns the header dictionary \<open>h\<close>.
\<close>

datatype listener_input =
    Signalled signal
  | Interrupted signal
  | Event "string \<rightharpoonup> string"

text \<open>
  How a run ends: \<open>Exited\<close>, the loop was left and \<^verbatim>\<open>run\<close> returns; \<open>Crashed e\<close>,
  the exception \<open>e\<close> left \<^verbatim>\<open>run\<close>; \<open>Blocked\<close>, the inputs are used up and the loop
  is alive, waiting in \<^verbatim>\<open>listener.wait\<close>.
\<close>

datatype run_result = Exited | Crashed exc | Blocked

fun run_loop ::
  "rpc_env \<Rightarrow> check_runner \<Rightarrow> bool \<Rightarrow> listener_input list \<Rightarrow> trace \<Rightarrow> run_result \<times> trace" where
  "run_loop env self stop [] tr = (if stop then (Exited, tr) else (Blocked, tr @ [Wait]))"
| "run_loop env self stop (Signalled s # ins) tr =
     run_loop env self True ins (signal_handler s tr)"
| "run_loop env self stop (Interrupted s # ins) tr =
     (if stop then (Exited, tr)
      else (Exited, signal_handler s (tr @ [Wait])
                      @ [Log (''Health check for '' @ process_group self
                              @ '' process group has been told to stop.'')]))"
| "run_loop env self stop (Event headers # ins) tr =
     (if stop then (Exited, tr)
      else
        (case headers EVENT_NAME_KEY of
           None \<Rightarrow> (Crashed (KeyError EVENT_NAME_KEY), tr @ [Wait])
         | Some event_type \<Rightarrow>
             if event_type \<in> TICK_EVENTS then
               (case check_processes env self (tr @ [Wait]) of
                  (Inl e, tr1) \<Rightarrow> (Crashed e, tr1)
                | (Inr _, tr1) \<Rightarrow> run_loop env self False ins (tr1 @ [Ack]))
             else
               run_loop env self False ins
                 (tr @ [Wait, Log (''Received unsupported event type: '' @ event_type), Ack])))"

definition run :: "rpc_env \<Rightarrow> check_runner \<Rightarrow> listener_input list \<Rightarrow> run_result \<times> trace" where
  "run env self ins =
     (let tr0 = [Log (''Starting the health check for '' @ process_group self
                      @ '' process group. Checks config: '' @ checks_config self)];
          tr1 = install_signal_handlers tr0
      in case run_loop env self False ins tr1 of
           (Exited, tr) \<Rightarrow> (Exited, tr @ [Log ''Done.''])
         | (r, tr) \<Rightarrow> (r, tr))"

subsection \<open>The logger\<close>

text \<open>
  \<^verbatim>\<open>_log\<close> reads the clock, renders it with \<^verbatim>\<open>strftime\<close>, writes one line to
  \<^verbatim>\<open>sys.stderr\<close> and flushes. The clock reading is a record of the fields of
  \<^verbatim>\<open>datetime.datetime.now()\<close>. \<open>strftime\<close> follows the Python library's description
  of the directives the format uses: \<^verbatim>\<open>%Y\<close> the year, \<^verbatim>\<open>%m\<close> the month,
  \<^verbatim>\<open>%d\<close> the day, \<^verbatim>\<open>%H\<close> the hour, \<^verbatim>\<open>%M\<close> the minute, \<^verbatim>\<open>%S\<close> the second, each
  as a zero-padded decimal number (four digits for the year, two for the others).
\<close>

record datetime =
  year :: nat
  month :: nat
  day :: nat
  hour :: nat
  minute :: nat
  second :: nat

definition digit_char :: "nat \<Rightarrow> char" where
  "digit_char d = ''0123456789'' ! d"

fun str_nat :: "nat \<Rightarrow> string" where
  "str_nat n = (if n < 10 then [digit_char n] else str_nat (n div 10) @ [digit_char (n mod 10)])"

declare str_nat.simps [simp del]

definition zero_pad :: "nat \<Rightarrow> string \<Rightarrow> string" where
  "zero_pad w s = replicate (w - length s) (CHR ''0'') @ s"

definition directive :: "char \<Rightarrow> datetime \<Rightarrow> string" where
  "directive c dt =
     (if c = CHR ''Y'' then zero_pad 4 (str_nat (year dt))
      else if c = CHR ''m'' then zero_pad 2 (str_nat (month dt))
      else if c = CHR ''d'' then zero_pad 2 (str_nat (day dt))
      else if c = CHR ''H'' then zero_pad 2 (str_nat (hour dt))
      else if c = CHR ''M'' then zero_pad 2 (str_nat (minute dt))
      else if c = CHR ''S'' then zero_pad 2 (str_nat (second dt))
      else if c = CHR ''%'' then ''%''
      else [CHR ''%'', c])"

fun strftime :: "string \<Rightarrow> datetime \<Rightarrow> string" where
  "strftime [] dt = []"
| "strftime [c] dt = [c]"
| "strftime (c # d # rest) dt =
     (if c = CHR ''%'' then directive d dt @ strftime rest dt
      else c # strftime (d # rest) dt)"

text \<open>
  The error stream: what has been written and not yet flushed, and what has reached the
  file descriptor.
\<close>

record stream =
  pending :: string
  flushed :: string

definition stderr_write :: "string \<Rightarrow> stream \<Rightarrow> stream" where
  "stderr_write s f = f\<lparr>pending := pending f @ s\<rparr>"

definition stderr_flush :: "stream \<Rightarrow> stream" where
  "stderr_flush f = f\<lparr>pending := [], flushed := flushed f @ pending f\<rparr>"

text \<open>\<^verbatim>\<open>_log\<close>, with \<open>msg\<close> the formatted message \<^verbatim>\<open>msg % args\<close>.\<close>

definition log :: "check_runner \<Rightarrow> datetime \<Rightarrow> string \<Rightarrow> stream \<Rightarrow> stream" where
  "log self now msg stderr =
     (let curr_dt = strftime ''%Y/%M/%d %H:%M:%S'' now
      in stderr_flush
           (stderr_write (curr_dt @ '' ['' @ runner_name self @ ''] '' @ msg @ [CHR 0x0A]) stderr))"

subsection \<open>Reading a trace\<close>

text \<open>The stop and start calls of a trace, in order.\<close>

fun is_stop_start :: "event \<Rightarrow> bool" where
  "is_stop_start (Rpc (StopProcess n)) = True"
| "is_stop_start (Rpc (StartProcess n w)) = True"
| "is_stop_start e = False"

definition stop_start_calls :: "trace \<Rightarrow> trace" where
  "stop_start_calls tr = filter is_stop_start tr"

text \<open>The acknowledgements of a trace, and the inputs that are signals.\<close>

fun is_signal :: "listener_input \<Rightarrow> bool" where
  "is_signal (Signalled s) = True"
| "is_signal (Interrupted s) = True"
| "is_signal (Event h) = False"

definition acks :: "trace \<Rightarrow> nat" where
  "acks tr = length (filter (\<lambda>e. e = Ack) tr)"

text \<open>An input that is an event with an \<^verbatim>\<open>eventname\<close> other than the three ticks.\<close>

fun is_unknown_event :: "listener_input \<Rightarrow> bool" where
  "is_unknown_event (Event headers) =
     (case headers EVENT_NAME_KEY of
        None \<Rightarrow> False
      | Some event_type \<Rightarrow> event_type \<notin> TICK_EVENTS)"
| "is_unknown_event i = False"

subsection \<open>Small environments for concrete runs\<close>

text \<open>
  A check with a fixed verdict, a supervisor with fixed replies whose qualified names are
  \<^verbatim>\<open>group:name\<close>, a process \<^verbatim>\<open>app\<close> of the group \<^verbatim>\<open>web\<close> in a given state, and a runner for
  that group.
\<close>

definition const_check :: "string \<Rightarrow> exc + bool \<Rightarrow> check" where
  "const_check n v = \<lparr>NAME = n, evaluate = (\<lambda>tr p. v)\<rparr>"

definition const_env ::
  "exc + process_spec list \<Rightarrow> exc + process_spec \<Rightarrow> exc + unit \<Rightarrow> exc + unit \<Rightarrow> rpc_env" where
  "const_env all_r info_r stop_r start_r =
     \<lparr>getAllProcessInfo = (\<lambda>tr. all_r),
      getProcessInfo = (\<lambda>tr n. info_r),
      stopProcess = (\<lambda>tr n. stop_r),
      startProcess = (\<lambda>tr n w. start_r),
      make_namespec = (\<lambda>g n. g @ '':'' @ n)\<rparr>"

definition web_app :: "int \<Rightarrow> process_spec" where
  "web_app st = \<lparr>p_name = ''app'', p_group = ''web'', p_state = st\<rparr>"

definition web_runner :: "check list \<Rightarrow> check_runner" where
  "web_runner cs = \<lparr>runner_name = ''web_check'', process_group = ''web'',
                    checks_config = ''[]'', checks = cs\<rparr>"

section \<open>Properties\<close>

subsection \<open>Every method only appends to the trace, and the check sequence returns\<close>

lemma start_step_extends: "\<exists>evs. snd (start_step env ns tr) = tr @ evs"
  by (simp add: start_step_def Let_def split: sum.split exc.split)

lemma stop_step_extends: "\<exists>evs. snd (stop_step env ns tr) = tr @ evs"
  by (simp add: stop_step_def Let_def split: sum.split exc.split)

lemma restart_process_extends: "\<exists>evs. snd (restart_process env spec tr) = tr @ evs"
proof -
  let ?ns = "make_namespec env (p_group spec) (p_name spec)"
  let ?tr2 = "tr @ [GetRPCInterface, Rpc (GetProcessInfo ?ns)]"
  obtain a where a: "snd (stop_step env ?ns ?tr2) = ?tr2 @ a"
    using stop_step_extends by blast
  obtain b where b: "snd (start_step env ?ns (?tr2 @ a)) = (?tr2 @ a) @ b"
    using start_step_extends by blast
  show ?thesis
    using a b
    by (cases "stop_step env ?ns ?tr2")
       (auto simp add: restart_process_def Let_def split: sum.split)
qed

lemma check_and_restart_extends:
  "\<exists>evs. snd (check_and_restart env cs spec tr) = tr @ evs"
proof (induction cs arbitrary: tr)
  case Nil
  show ?case by simp
next
  case (Cons c cs)
  let ?tr1 = "tr @ [Log (''Performing '' @ NAME c @ '' check for process name '' @ p_name spec)]"
  let ?tr2 = "?tr1 @ [CheckCall (NAME c) (p_name spec)]"
  show ?case
  proof (cases "evaluate c ?tr1 spec")
    case (Inl e)
    then show ?thesis using Cons.IH [of "?tr2 @ [Log (NAME c @ '' check raised error for process '' @ p_name spec @ '': '' @ str_exc e)]"]
      by (auto simp add: Let_def)
  next
    case (Inr v)
    show ?thesis
    proof (cases v)
      case True
      then show ?thesis using Inr Cons.IH [of "?tr2 @ [Log (NAME c @ '' check succeeded for process '' @ p_name spec)]"]
        by (auto simp add: Let_def)
    next
      case False
      let ?tr3 = "?tr2 @ [Log (NAME c @ '' check failed for process '' @ p_name spec @ ''. Trying to restart.'')]"
      obtain r t where rt: "restart_process env spec ?tr3 = (r, t)" by (cases "restart_process env spec ?tr3")
      obtain a where a: "t = ?tr3 @ a" using restart_process_extends [of env spec ?tr3] rt by auto
      show ?thesis
      proof (cases r)
        case (Inl e)
        then show ?thesis using False Inr rt a
            Cons.IH [of "t @ [Log (NAME c @ '' check raised error for process '' @ p_name spec @ '': '' @ str_exc e)]"]
          by (auto simp add: Let_def)
      next
        case (Inr u)
        then show ?thesis using False \<open>evaluate c ?tr1 spec = Inr v\<close> rt a
          by (auto simp add: Let_def)
      qed
    qed
  qed
qed

lemma check_and_restart_returns: "fst (check_and_restart env cs spec tr) = Inr ()"
proof (induction cs arbitrary: tr)
  case Nil
  show ?case by simp
next
  case (Cons c cs)
  show ?case
    by (auto simp add: Let_def Cons.IH split: sum.split bool.split prod.split)
qed

lemma check_and_restart_first:
  "\<exists>rest. snd (check_and_restart env (d # ds) spec tr) =
      tr @ [Log (''Performing '' @ NAME d @ '' check for process name '' @ p_name spec),
            CheckCall (NAME d) (p_name spec)] @ rest"
proof -
  let ?tr1 = "tr @ [Log (''Performing '' @ NAME d @ '' check for process name '' @ p_name spec)]"
  let ?tr2 = "?tr1 @ [CheckCall (NAME d) (p_name spec)]"
  have "\<exists>evs. snd (check_and_restart env (d # ds) spec tr) = ?tr2 @ evs"
  proof (cases "evaluate d ?tr1 spec")
    case (Inl e)
    then show ?thesis
      using check_and_restart_extends [of env ds spec "?tr2 @ [Log (NAME d @ '' check raised error for process '' @ p_name spec @ '': '' @ str_exc e)]"]
      by (auto simp add: Let_def)
  next
    case (Inr v)
    show ?thesis
    proof (cases v)
      case True
      then show ?thesis
        using Inr check_and_restart_extends [of env ds spec "?tr2 @ [Log (NAME d @ '' check succeeded for process '' @ p_name spec)]"]
        by (auto simp add: Let_def)
    next
      case False
      let ?tr3 = "?tr2 @ [Log (NAME d @ '' check failed for process '' @ p_name spec @ ''. Trying to restart.'')]"
      obtain r t where rt: "restart_process env spec ?tr3 = (r, t)" by (cases "restart_process env spec ?tr3")
      obtain a where a: "t = ?tr3 @ a" using restart_process_extends [of env spec ?tr3] rt by auto
      show ?thesis
      proof (cases r)
        case (Inl e')
        then show ?thesis using False Inr rt a
            check_and_restart_extends [of env ds spec "t @ [Log (NAME d @ '' check raised error for process '' @ p_name spec @ '': '' @ str_exc e')]"]
          by (auto simp add: Let_def)
      next
        case (Inr u)
        then show ?thesis using False \<open>evaluate d ?tr1 spec = Inr v\<close> rt a
          by (auto simp add: Let_def)
      qed
    qed
  qed
  then show ?thesis by simp
qed

lemma pool_submit_all_extends: "\<exists>evs. pool_submit_all env cs ps tr = tr @ evs"
proof (induction ps arbitrary: tr)
  case Nil
  show ?case by simp
next
  case (Cons p ps)
  obtain a where a: "snd (check_and_restart env cs p (tr @ [PoolSubmit (p_name p)]))
                       = (tr @ [PoolSubmit (p_name p)]) @ a"
    using check_and_restart_extends by blast
  obtain b where b: "pool_submit_all env cs ps ((tr @ [PoolSubmit (p_name p)]) @ a)
                       = ((tr @ [PoolSubmit (p_name p)]) @ a) @ b"
    using Cons.IH by blast
  show ?case using a b by simp
qed

lemma check_processes_extends: "\<exists>evs. snd (check_processes env self tr) = tr @ evs"
proof (cases "getAllProcessInfo env tr")
  case (Inl e)
  then show ?thesis
    by (simp add: check_processes_def get_process_spec_list_def)
next
  case (Inr all_specs)
  let ?ms = "filter (\<lambda>p. p_group p = process_group self \<and> p_state p = RUNNING) all_specs"
  let ?tr1 = "tr @ [Rpc GetAllProcessInfo]"
  obtain a where a: "snd (check_and_restart env (checks self) (?ms ! 0) ?tr1) = ?tr1 @ a"
    using check_and_restart_extends by blast
  obtain b where b: "pool_submit_all env (checks self) ?ms (?tr1 @ [PoolCreate MAX_THREADS])
                       = (?tr1 @ [PoolCreate MAX_THREADS]) @ b"
    using pool_submit_all_extends by blast
  show ?thesis
    using Inr a b
    by (simp add: check_processes_def get_process_spec_list_def)
qed

lemma run_loop_extends: "\<exists>evs. snd (run_loop env self stop ins tr) = tr @ evs"
proof (induction ins arbitrary: stop tr)
  case Nil
  show ?case by simp
next
  case (Cons i ins)
  show ?case
  proof (cases i)
    case (Signalled s)
    obtain a where "snd (run_loop env self True ins (signal_handler s tr)) = signal_handler s tr @ a"
      using Cons.IH by blast
    then show ?thesis using Signalled by (simp add: signal_handler_def)
  next
    case (Interrupted s)
    then show ?thesis by (simp add: signal_handler_def)
  next
    case (Event h)
    show ?thesis
    proof (cases "h EVENT_NAME_KEY")
      case None
      then show ?thesis using Event by simp
    next
      case (Some k)
      show ?thesis
      proof (cases "k \<in> TICK_EVENTS")
        case False
        obtain a where "snd (run_loop env self False ins
                               (tr @ [Wait, Log (''Received unsupported event type: '' @ k), Ack]))
                          = (tr @ [Wait, Log (''Received unsupported event type: '' @ k), Ack]) @ a"
          using Cons.IH by blast
        then show ?thesis using Event Some False by simp
      next
        case True
        obtain r t where rt: "check_processes env self (tr @ [Wait]) = (r, t)"
          by (cases "check_processes env self (tr @ [Wait])")
        obtain a where a: "t = (tr @ [Wait]) @ a"
          using check_processes_extends [of env self "tr @ [Wait]"] rt by auto
        obtain b where b: "snd (run_loop env self False ins (t @ [Ack])) = (t @ [Ack]) @ b"
          using Cons.IH by blast
        show ?thesis
          using Event Some True rt a b by (cases r) simp_all
      qed
    qed
  qed
qed

subsection \<open>No method but the loop writes an acknowledgement\<close>

lemma acks_append: "acks (xs @ ys) = acks xs + acks ys"
  by (simp add: acks_def)

lemma acks_start_step: "acks (snd (start_step env ns tr)) = acks tr"
  by (simp add: start_step_def Let_def acks_def split: sum.split exc.split)

lemma acks_stop_step: "acks (snd (stop_step env ns tr)) = acks tr"
  by (simp add: stop_step_def Let_def acks_def split: sum.split exc.split)

lemma acks_restart_process: "acks (snd (restart_process env spec tr)) = acks tr"
proof -
  let ?ns = "make_namespec env (p_group spec) (p_name spec)"
  let ?tr2 = "tr @ [GetRPCInterface, Rpc (GetProcessInfo ?ns)]"
  have a: "acks (snd (stop_step env ?ns ?tr2)) = acks tr"
    by (simp add: acks_stop_step) (simp add: acks_def)
  have b: "acks (snd (start_step env ?ns (snd (stop_step env ?ns ?tr2)))) = acks tr"
    using a by (simp add: acks_start_step)
  show ?thesis
    using a b
    by (cases "stop_step env ?ns ?tr2")
       (auto simp add: restart_process_def Let_def acks_def split: sum.split)
qed

lemma acks_check_and_restart: "acks (snd (check_and_restart env cs spec tr)) = acks tr"
proof (induction cs arbitrary: tr)
  case Nil
  show ?case by simp
next
  case (Cons c cs)
  let ?tr1 = "tr @ [Log (''Performing '' @ NAME c @ '' check for process name '' @ p_name spec)]"
  let ?tr2 = "?tr1 @ [CheckCall (NAME c) (p_name spec)]"
  show ?case
  proof (cases "evaluate c ?tr1 spec")
    case (Inl e)
    then show ?thesis
      by (simp add: Let_def Cons.IH) (simp add: acks_def)
  next
    case (Inr v)
    show ?thesis
    proof (cases v)
      case True
      then show ?thesis using Inr
        by (simp add: Let_def Cons.IH) (simp add: acks_def)
    next
      case False
      let ?tr3 = "?tr2 @ [Log (NAME c @ '' check failed for process '' @ p_name spec @ ''. Trying to restart.'')]"
      obtain r t where rt: "restart_process env spec ?tr3 = (r, t)"
        by (cases "restart_process env spec ?tr3")
      have t: "acks t = acks tr"
        using acks_restart_process [of env spec ?tr3] rt by (simp add: acks_def)
      show ?thesis
      proof (cases r)
        case (Inl e)
        then show ?thesis using False Inr rt t
          by (simp add: Let_def Cons.IH) (simp add: acks_def)
      next
        case (Inr u)
        then show ?thesis using False \<open>evaluate c ?tr1 spec = Inr v\<close> rt t
          by (simp add: Let_def)
      qed
    qed
  qed
qed

lemma acks_pool_submit_all: "acks (pool_submit_all env cs ps tr) = acks tr"
proof (induction ps arbitrary: tr)
  case Nil
  show ?case by simp
next
  case (Cons p ps)
  show ?case
    by (simp add: Cons.IH acks_check_and_restart) (simp add: acks_def)
qed

subsection \<open>The restart transition\<close>

text \<open>
  Claim C3. A restart attempt calls \<^verbatim>\<open>stopProcess\<close> or \<^verbatim>\<open>startProcess\<close> only if the
  descriptor that \<^verbatim>\<open>getProcessInfo\<close> returns at restart time has state RUNNING. If that
  descriptor has another state, the attempt logs that the process is not in RUNNING state
  and does nothing else. The state in the descriptor handed in (the one of the
  enumeration) plays no part.
\<close>

theorem restart_needs_fresh_running:
  "(\<forall>fresh. getProcessInfo env (tr @ [GetRPCInterface])
               (make_namespec env (p_group spec) (p_name spec)) = Inr fresh
            \<and> p_state fresh \<noteq> RUNNING \<longrightarrow>
       restart_process env spec tr =
         (Inr (), tr @ [GetRPCInterface,
                        Rpc (GetProcessInfo (make_namespec env (p_group spec) (p_name spec))),
                        Log (make_namespec env (p_group spec) (p_name spec)
                             @ '' not in RUNNING state, cannot restart'')]))
   \<and> (stop_start_calls (snd (restart_process env spec tr)) \<noteq> stop_start_calls tr \<longrightarrow>
        (\<exists>fresh. getProcessInfo env (tr @ [GetRPCInterface])
                   (make_namespec env (p_group spec) (p_name spec)) = Inr fresh
                \<and> p_state fresh = RUNNING))
   \<and> restart_process env (spec\<lparr>p_state := s\<rparr>) tr = restart_process env spec tr"
  by (auto simp add: restart_process_def Let_def stop_start_calls_def split: sum.splits)

theorem restart_needs_fresh_running_witness:
  "restart_process (const_env (Inr []) (Inr (web_app 0)) (Inr ()) (Inr ())) (web_app 20) []
     = (Inr (), [GetRPCInterface, Rpc (GetProcessInfo ''web:app''),
                 Log ''web:app not in RUNNING state, cannot restart''])
   \<and> stop_start_calls (snd (restart_process (const_env (Inr []) (Inr (web_app 20)) (Inr ()) (Inr ()))
                              (web_app 0) []))
       = [Rpc (StopProcess ''web:app''), Rpc (StartProcess ''web:app'' False)]
   \<and> (\<exists>fresh. getProcessInfo (const_env (Inr []) (Inr (web_app 20)) (Inr ()) (Inr ())) [GetRPCInterface]
                ''web:app'' = Inr fresh \<and> p_state fresh = RUNNING)"
  using restart_needs_fresh_running
          [of "const_env (Inr []) (Inr (web_app 0)) (Inr ()) (Inr ())" "[]" "web_app 20" 0]
        restart_needs_fresh_running
          [of "const_env (Inr []) (Inr (web_app 20)) (Inr ()) (Inr ())" "[]" "web_app 0" 0]
  by (simp add: const_env_def web_app_def RUNNING_def restart_process_def stop_step_def
        start_step_def stop_start_calls_def Let_def)

subsection \<open>Faults of the stop and the start call\<close>

text \<open>
  Claim C6. In a restart whose re-fetched state is RUNNING, a remote fault of
  \<^verbatim>\<open>stopProcess\<close> is logged and \<^verbatim>\<open>startProcess\<close> is still called, with the wait
  flag false. A remote fault of \<^verbatim>\<open>startProcess\<close> is logged and nothing else is done,
  whether the stop call had faulted or had succeeded. In each of the four combinations
  of a stop and a start call that answer or fault, \<^verbatim>\<open>_restart_process\<close> returns
  normally, with exactly the trace given.
\<close>

theorem restart_tolerates_faults:
  assumes "getProcessInfo env (tr @ [GetRPCInterface]) ns = Inr fresh"
    and "p_state fresh = RUNNING"
    and "ns = make_namespec env (p_group spec) (p_name spec)"
  shows
    "(\<forall>f. stopProcess env (tr @ [GetRPCInterface, Rpc (GetProcessInfo ns),
                                Log (''Trying to stop process '' @ ns)]) ns = Inl (Fault f) \<longrightarrow>
        (\<exists>rest. snd (restart_process env spec tr) =
           (tr @ [GetRPCInterface,
                       Rpc (GetProcessInfo ns),
                       Log (''Trying to stop process '' @ ns),
                       Rpc (StopProcess ns),
                       Log (''Failed to stop process '' @ ns @ '': '' @ f),
                       Log (''Starting process '' @ ns),
                       Rpc (StartProcess ns False)]) @ rest)
      \<and> (\<forall>g. startProcess env
                (tr @ [GetRPCInterface,
                       Rpc (GetProcessInfo ns),
                       Log (''Trying to stop process '' @ ns),
                       Rpc (StopProcess ns),
                       Log (''Failed to stop process '' @ ns @ '': '' @ f),
                       Log (''Starting process '' @ ns)]) ns False = Inl (Fault g) \<longrightarrow>
            restart_process env spec tr =
              (Inr (),
               tr @ [GetRPCInterface,
                       Rpc (GetProcessInfo ns),
                       Log (''Trying to stop process '' @ ns),
                       Rpc (StopProcess ns),
                       Log (''Failed to stop process '' @ ns @ '': '' @ f),
                       Log (''Starting process '' @ ns),
                       Rpc (StartProcess ns False),
                       Log (''Failed to start process '' @ ns @ '': '' @ g)]))
      \<and> (\<forall>u. startProcess env
                (tr @ [GetRPCInterface,
                       Rpc (GetProcessInfo ns),
                       Log (''Trying to stop process '' @ ns),
                       Rpc (StopProcess ns),
                       Log (''Failed to stop process '' @ ns @ '': '' @ f),
                       Log (''Starting process '' @ ns)]) ns False = Inr u \<longrightarrow>
            restart_process env spec tr =
              (Inr (),
               tr @ [GetRPCInterface,
                       Rpc (GetProcessInfo ns),
                       Log (''Trying to stop process '' @ ns),
                       Rpc (StopProcess ns),
                       Log (''Failed to stop process '' @ ns @ '': '' @ f),
                       Log (''Starting process '' @ ns),
                       Rpc (StartProcess ns False)])))
   \<and> (\<forall>v. stopProcess env (tr @ [GetRPCInterface, Rpc (GetProcessInfo ns),
                                Log (''Trying to stop process '' @ ns)]) ns = Inr v \<longrightarrow>
        (\<forall>g. startProcess env
                (tr @ [GetRPCInterface,
                       Rpc (GetProcessInfo ns),
                       Log (''Trying to stop process '' @ ns),
                       Rpc (StopProcess ns),
                       Log (''Stopped process '' @ ns),
                       Log (''Starting process '' @ ns)]) ns False = Inl (Fault g) \<longrightarrow>
            restart_process env spec tr =
              (Inr (),
               tr @ [GetRPCInterface,
                       Rpc (GetProcessInfo ns),
                       Log (''Trying to stop process '' @ ns),
                       Rpc (StopProcess ns),
                       Log (''Stopped process '' @ ns),
                       Log (''Starting process '' @ ns),
                       Rpc (StartProcess ns False),
                       Log (''Failed to start process '' @ ns @ '': '' @ g)]))
      \<and> (\<forall>u. startProcess env
                (tr @ [GetRPCInterface,
                       Rpc (GetProcessInfo ns),
                       Log (''Trying to stop process '' @ ns),
                       Rpc (StopProcess ns),
                       Log (''Stopped process '' @ ns),
                       Log (''Starting process '' @ ns)]) ns False = Inr u \<longrightarrow>
            restart_process env spec tr =
              (Inr (),
               tr @ [GetRPCInterface,
                       Rpc (GetProcessInfo ns),
                       Log (''Trying to stop process '' @ ns),
                       Rpc (StopProcess ns),
                       Log (''Stopped process '' @ ns),
                       Log (''Starting process '' @ ns),
                       Rpc (StartProcess ns False)])))"
  using assms
  by (auto simp add: restart_process_def stop_step_def start_step_def Let_def
           split: sum.split exc.split)

theorem restart_tolerates_faults_witness:
  "restart_process (const_env (Inr []) (Inr (web_app 20)) (Inl (Fault ''NOT_RUNNING''))
                      (Inl (Fault ''SPAWN_ERROR''))) (web_app 20) []
     = (Inr (), [GetRPCInterface, Rpc (GetProcessInfo ''web:app''),
                 Log ''Trying to stop process web:app'', Rpc (StopProcess ''web:app''),
                 Log ''Failed to stop process web:app: NOT_RUNNING'',
                 Log ''Starting process web:app'', Rpc (StartProcess ''web:app'' False),
                 Log ''Failed to start process web:app: SPAWN_ERROR''])
   \<and> restart_process (const_env (Inr []) (Inr (web_app 20)) (Inl (Fault ''NOT_RUNNING''))
                      (Inr ())) (web_app 20) []
     = (Inr (), [GetRPCInterface, Rpc (GetProcessInfo ''web:app''),
                 Log ''Trying to stop process web:app'', Rpc (StopProcess ''web:app''),
                 Log ''Failed to stop process web:app: NOT_RUNNING'',
                 Log ''Starting process web:app'', Rpc (StartProcess ''web:app'' False)])
   \<and> restart_process (const_env (Inr []) (Inr (web_app 20)) (Inr ())
                      (Inl (Fault ''SPAWN_ERROR''))) (web_app 20) []
     = (Inr (), [GetRPCInterface, Rpc (GetProcessInfo ''web:app''),
                 Log ''Trying to stop process web:app'', Rpc (StopProcess ''web:app''),
                 Log ''Stopped process web:app'',
                 Log ''Starting process web:app'', Rpc (StartProcess ''web:app'' False),
                 Log ''Failed to start process web:app: SPAWN_ERROR''])
   \<and> restart_process (const_env (Inr []) (Inr (web_app 20)) (Inr ()) (Inr ())) (web_app 20) []
     = (Inr (), [GetRPCInterface, Rpc (GetProcessInfo ''web:app''),
                 Log ''Trying to stop process web:app'', Rpc (StopProcess ''web:app''),
                 Log ''Stopped process web:app'',
                 Log ''Starting process web:app'', Rpc (StartProcess ''web:app'' False)])"
proof -
  have h1: "getProcessInfo (const_env (Inr []) (Inr (web_app 20)) sr tr) ([] @ [GetRPCInterface])
              ''web:app'' = Inr (web_app 20)" for sr tr
    by (simp add: const_env_def)
  have h2: "p_state (web_app 20) = RUNNING"
    by (simp add: web_app_def RUNNING_def)
  have h3: "''web:app'' = make_namespec (const_env (Inr []) (Inr (web_app 20)) sr tr)
              (p_group (web_app 20)) (p_name (web_app 20))" for sr tr
    by (simp add: const_env_def web_app_def)
  have ev: "stopProcess (const_env a b sr tr) t n = sr"
           "startProcess (const_env a b sr tr) t n w = tr" for a b sr tr t n w
    by (simp_all add: const_env_def)
  show ?thesis
    using restart_tolerates_faults
            [OF h1 [of "Inl (Fault ''NOT_RUNNING'')" "Inl (Fault ''SPAWN_ERROR'')"] h2
                h3 [of "Inl (Fault ''NOT_RUNNING'')" "Inl (Fault ''SPAWN_ERROR'')"]]
          restart_tolerates_faults
            [OF h1 [of "Inl (Fault ''NOT_RUNNING'')" "Inr ()"] h2
                h3 [of "Inl (Fault ''NOT_RUNNING'')" "Inr ()"]]
          restart_tolerates_faults
            [OF h1 [of "Inr ()" "Inl (Fault ''SPAWN_ERROR'')"] h2
                h3 [of "Inr ()" "Inl (Fault ''SPAWN_ERROR'')"]]
          restart_tolerates_faults
            [OF h1 [of "Inr ()" "Inr ()"] h2 h3 [of "Inr ()" "Inr ()"]]
    by (simp add: ev)
qed

subsection \<open>A check that raises\<close>

text \<open>
  Claim C5. When a check raises, the handler of \<^verbatim>\<open>_check_and_restart\<close> logs the
  error with the name of the check and of the process, nothing is sent to the supervisor
  for it, and the loop goes on with the remaining checks: the next check, if there is
  one, is announced and called.
\<close>

theorem check_error_is_skipped:
  "evaluate c (tr @ [Log (''Performing '' @ NAME c @ '' check for process name '' @ p_name spec)]) spec
     = Inl e \<Longrightarrow>
   check_and_restart env (c # cs) spec tr =
     check_and_restart env cs spec
       (tr @ [Log (''Performing '' @ NAME c @ '' check for process name '' @ p_name spec),
              CheckCall (NAME c) (p_name spec),
              Log (NAME c @ '' check raised error for process '' @ p_name spec @ '': '' @ str_exc e)])
   \<and> (\<forall>d ds. cs = d # ds \<longrightarrow>
        (\<exists>rest. snd (check_and_restart env (c # cs) spec tr) =
           tr @ [Log (''Performing '' @ NAME c @ '' check for process name '' @ p_name spec),
                 CheckCall (NAME c) (p_name spec),
                 Log (NAME c @ '' check raised error for process '' @ p_name spec @ '': '' @ str_exc e),
                 Log (''Performing '' @ NAME d @ '' check for process name '' @ p_name spec),
                 CheckCall (NAME d) (p_name spec)] @ rest))"
proof -
  assume ev: "evaluate c (tr @ [Log (''Performing '' @ NAME c @ '' check for process name '' @ p_name spec)]) spec = Inl e"
  let ?tr3 = "tr @ [Log (''Performing '' @ NAME c @ '' check for process name '' @ p_name spec),
              CheckCall (NAME c) (p_name spec),
              Log (NAME c @ '' check raised error for process '' @ p_name spec @ '': '' @ str_exc e)]"
  have step: "check_and_restart env (c # cs) spec tr = check_and_restart env cs spec ?tr3"
    using ev by (simp add: Let_def)
  have "\<exists>rest. snd (check_and_restart env (c # d # ds) spec tr) =
           ?tr3 @ [Log (''Performing '' @ NAME d @ '' check for process name '' @ p_name spec),
                 CheckCall (NAME d) (p_name spec)] @ rest" for d ds
    using ev check_and_restart_first [of env d ds spec ?tr3] by (simp add: Let_def)
  then show ?thesis using step by auto
qed

theorem check_error_is_skipped_witness:
  "check_and_restart (const_env (Inr []) (Inr (web_app 20)) (Inr ()) (Inr ()))
      [const_check ''http'' (Inl (OtherError ''timed out'')), const_check ''mem'' (Inr True)]
      (web_app 20) []
    = (Inr (), [Log ''Performing http check for process name app'',
                CheckCall ''http'' ''app'',
                Log ''http check raised error for process app: timed out'',
                Log ''Performing mem check for process name app'',
                CheckCall ''mem'' ''app'',
                Log ''mem check succeeded for process app''])"
  using check_error_is_skipped
          [of "const_check ''http'' (Inl (OtherError ''timed out''))" "[]" "web_app 20"
              "OtherError ''timed out''" "const_env (Inr []) (Inr (web_app 20)) (Inr ()) (Inr ())"
              "[const_check ''mem'' (Inr True)]"]
  by (simp add: const_check_def web_app_def Let_def)

subsection \<open>The first failing check\<close>

text \<open>
  When a check returns false and the restart transition returns normally, the sequence
  ends with that transition: no later check is looked at.
\<close>

lemma first_failure_short_circuits:
  assumes "evaluate c (tr @ [Log (''Performing '' @ NAME c @ '' check for process name ''
                                  @ p_name spec)]) spec = Inr False"
    and "fst (restart_process env spec
                (tr @ [Log (''Performing '' @ NAME c @ '' check for process name '' @ p_name spec),
                       CheckCall (NAME c) (p_name spec),
                       Log (NAME c @ '' check failed for process '' @ p_name spec
                            @ ''. Trying to restart.'')])) = Inr ()"
  shows "check_and_restart env (c # cs) spec tr =
           restart_process env spec
             (tr @ [Log (''Performing '' @ NAME c @ '' check for process name '' @ p_name spec),
                    CheckCall (NAME c) (p_name spec),
                    Log (NAME c @ '' check failed for process '' @ p_name spec
                         @ ''. Trying to restart.'')])"
  using assms by (auto simp add: Let_def split: prod.split sum.split)

text \<open>
  Claim C2. The claim: in one tick at most one restart transition is attempted for a
  process, and no check is evaluated after the first one that returns false. The code
  breaks it when the restart transition raises. The \<^verbatim>\<open>return self._restart_process(...)\<close>
  stands inside the \<^verbatim>\<open>try\<close> block of the check, so the exception is handled as if the
  check had raised it and the loop resumes with the next check. Here the checks are
  A (passes), B (fails), C (fails) and \<^verbatim>\<open>getProcessInfo\<close> answers with a fault:
  C is evaluated after B has failed, and the restart transition is entered twice.
\<close>

theorem restart_error_resumes_the_checks:
  "check_and_restart (const_env (Inr [web_app 20]) (Inl (Fault ''BAD_NAME'')) (Inr ()) (Inr ()))
     [const_check ''A'' (Inr True), const_check ''B'' (Inr False), const_check ''C'' (Inr False)]
     (web_app 20) []
   = (Inr (),
      [Log ''Performing A check for process name app'', CheckCall ''A'' ''app'',
       Log ''A check succeeded for process app'',
       Log ''Performing B check for process name app'', CheckCall ''B'' ''app'',
       Log ''B check failed for process app. Trying to restart.'',
       GetRPCInterface, Rpc (GetProcessInfo ''web:app''),
       Log ''B check raised error for process app: BAD_NAME'',
       Log ''Performing C check for process name app'', CheckCall ''C'' ''app'',
       Log ''C check failed for process app. Trying to restart.'',
       GetRPCInterface, Rpc (GetProcessInfo ''web:app''),
       Log ''C check raised error for process app: BAD_NAME''])"
  by (simp add: const_env_def const_check_def web_app_def restart_process_def Let_def)

text \<open>
  The same happens when the exception comes from \<^verbatim>\<open>stopProcess\<close> and is not an
  \<^verbatim>\<open>xmlrpclib.Fault\<close>: with two failing checks the stop call is sent twice in one
  tick.
\<close>

lemma stop_error_repeats_the_stop:
  "stop_start_calls (snd (check_and_restart
      (const_env (Inr [web_app 20]) (Inr (web_app 20)) (Inl (OtherError ''timed out'')) (Inr ()))
      [const_check ''B'' (Inr False), const_check ''C'' (Inr False)] (web_app 20) []))
   = [Rpc (StopProcess ''web:app''), Rpc (StopProcess ''web:app'')]"
  by (simp add: const_env_def const_check_def web_app_def restart_process_def stop_step_def
        Let_def RUNNING_def stop_start_calls_def)

subsection \<open>A cycle with no matching process\<close>

text \<open>
  Claim C7. When the enumeration answers and no process of the configured group is in
  state RUNNING, the check cycle logs the "no processes" message, sends no stop and no
  start call, and returns normally.
\<close>

theorem no_matches_is_a_no_op:
  assumes "getAllProcessInfo env tr = Inr all_specs"
    and "filter (\<lambda>p. p_group p = process_group self \<and> p_state p = RUNNING) all_specs = []"
  shows "check_processes env self tr =
           (Inr (), tr @ [Rpc GetAllProcessInfo,
                          Log (''No processes in state RUNNING found for process group ''
                               @ process_group self)])
         \<and> stop_start_calls (snd (check_processes env self tr)) = stop_start_calls tr"
  using assms
  by (simp add: check_processes_def get_process_spec_list_def stop_start_calls_def)


theorem no_matches_is_a_no_op_witness:
  "check_processes
     (const_env (Inr [web_app 0, \<lparr>p_name = ''db'', p_group = ''data'', p_state = 20\<rparr>])
        (Inr (web_app 0)) (Inr ()) (Inr ()))
     (web_runner [const_check ''http'' (Inr False)]) []
   = (Inr (), [Rpc GetAllProcessInfo,
               Log ''No processes in state RUNNING found for process group web''])"
  using no_matches_is_a_no_op
          [of "const_env (Inr [web_app 0, \<lparr>p_name = ''db'', p_group = ''data'', p_state = 20\<rparr>])
                 (Inr (web_app 0)) (Inr ()) (Inr ())" "[]"
              "[web_app 0, \<lparr>p_name = ''db'', p_group = ''data'', p_state = 20\<rparr>]"
              "web_runner [const_check ''http'' (Inr False)]"]
  by (simp add: const_env_def web_app_def web_runner_def RUNNING_def)

subsection \<open>How the dispatcher hands out the matches\<close>

text \<open>
  One match is checked by a direct call, with no pool. Several matches go to a pool built
  with \<^verbatim>\<open>MAX_THREADS\<close> workers, one submission for each match, and the cycle returns
  after the pool is shut down.
\<close>

lemma single_match_runs_directly:
  assumes "getAllProcessInfo env tr = Inr all_specs"
    and "filter (\<lambda>p. p_group p = process_group self \<and> p_state p = RUNNING) all_specs = [p]"
  shows "check_processes env self tr =
           check_and_restart env (checks self) p (tr @ [Rpc GetAllProcessInfo])"
  using assms by (simp add: check_processes_def get_process_spec_list_def)

lemma several_matches_use_the_pool:
  assumes "getAllProcessInfo env tr = Inr all_specs"
    and "1 < length (filter (\<lambda>p. p_group p = process_group self \<and> p_state p = RUNNING) all_specs)"
  shows "check_processes env self tr =
           (Inr (), pool_submit_all env (checks self)
                      (filter (\<lambda>p. p_group p = process_group self \<and> p_state p = RUNNING) all_specs)
                      (tr @ [Rpc GetAllProcessInfo, PoolCreate 16]) @ [PoolShutdown])"
  using assms by (auto simp add: check_processes_def get_process_spec_list_def MAX_THREADS_def)

subsection \<open>Events that are not ticks\<close>

text \<open>
  A run of events none of which is a tick: the loop stays alive, writes one
  acknowledgement for each, and sends no stop or start call, whatever the supervisor
  would answer.
\<close>

lemma unknown_events_keep_the_loop:
  "list_all is_unknown_event ins \<Longrightarrow>
   fst (run_loop env self False ins tr) = Blocked
   \<and> acks (snd (run_loop env self False ins tr)) = acks tr + length ins
   \<and> stop_start_calls (snd (run_loop env self False ins tr)) = stop_start_calls tr"
proof (induction ins arbitrary: tr)
  case Nil
  show ?case by (simp add: acks_def stop_start_calls_def)
next
  case (Cons i ins)
  from Cons.prems obtain h k where i: "i = Event h" and k: "h EVENT_NAME_KEY = Some k"
    and nt: "k \<notin> TICK_EVENTS" and rest: "list_all is_unknown_event ins"
    by (cases i) (auto split: option.splits)
  show ?case
    using i k nt Cons.IH [OF rest, of "tr @ [Wait, Log (''Received unsupported event type: '' @ k), Ack]"]
    by (simp add: acks_def stop_start_calls_def)
qed

text \<open>
  Claim C8. An event whose \<^verbatim>\<open>eventname\<close> is none of \<^verbatim>\<open>TICK_5\<close>, \<^verbatim>\<open>TICK_60\<close>,
  \<^verbatim>\<open>TICK_3600\<close> is logged and acknowledged, and no check cycle runs for it: the
  trace the loop returns continues the trace so far with the wait, the log line and the
  acknowledgement, and the loop goes on with the next input from there. If the event is
  the last input, the loop ends up waiting for the next one, with nothing else in the
  trace. If only events of this kind follow, the loop is alive after all of them, each
  has its acknowledgement, and no stop or start call was sent.
\<close>

theorem unknown_event_is_acknowledged:
  assumes "headers EVENT_NAME_KEY = Some event_type"
    and "event_type \<notin> TICK_EVENTS"
  shows "run_loop env self False (Event headers # ins) tr =
           run_loop env self False ins
             (tr @ [Wait, Log (''Received unsupported event type: '' @ event_type), Ack])
       \<and> (\<exists>rest. snd (run_loop env self False (Event headers # ins) tr) =
             tr @ [Wait, Log (''Received unsupported event type: '' @ event_type), Ack] @ rest)
       \<and> run_loop env self False [Event headers] tr =
           (Blocked, tr @ [Wait, Log (''Received unsupported event type: '' @ event_type), Ack, Wait])
       \<and> (list_all is_unknown_event ins \<longrightarrow>
             fst (run_loop env self False (Event headers # ins) tr) = Blocked
           \<and> acks (snd (run_loop env self False (Event headers # ins) tr))
               = acks tr + 1 + length ins
           \<and> stop_start_calls (snd (run_loop env self False (Event headers # ins) tr))
               = stop_start_calls tr)"
proof -
  let ?tr3 = "tr @ [Wait, Log (''Received unsupported event type: '' @ event_type), Ack]"
  have step: "run_loop env self False (Event headers # ins) tr = run_loop env self False ins ?tr3"
    using assms by simp
  obtain a where "snd (run_loop env self False ins ?tr3) = ?tr3 @ a"
    using run_loop_extends by blast
  then have pre: "\<exists>rest. snd (run_loop env self False (Event headers # ins) tr) =
           tr @ [Wait, Log (''Received unsupported event type: '' @ event_type), Ack] @ rest"
    using step by simp
  have last: "run_loop env self False [Event headers] tr =
           (Blocked, tr @ [Wait, Log (''Received unsupported event type: '' @ event_type), Ack, Wait])"
    using assms by simp
  have many: "fst (run_loop env self False (Event headers # ins) tr) = Blocked
         \<and> acks (snd (run_loop env self False (Event headers # ins) tr)) = acks tr + 1 + length ins
         \<and> stop_start_calls (snd (run_loop env self False (Event headers # ins) tr))
             = stop_start_calls tr"
    if "list_all is_unknown_event ins"
  proof -
    from that assms have "list_all is_unknown_event (Event headers # ins)"
      by simp
    from unknown_events_keep_the_loop [OF this, of env self tr] show ?thesis
      by simp
  qed
  show ?thesis
    using step pre last many by blast
qed

theorem unknown_event_is_acknowledged_witness:
  "run_loop (const_env (Inl (Fault ''SHUTDOWN_STATE'')) (Inl (Fault ''SHUTDOWN_STATE'')) (Inr ()) (Inr ()))
     (web_runner []) False [Event [''eventname'' \<mapsto> ''PROCESS_STATE_EXITED'']] []
   = (Blocked, [Wait, Log ''Received unsupported event type: PROCESS_STATE_EXITED'', Ack, Wait])
   \<and> fst (run_loop (const_env (Inl (Fault ''SHUTDOWN_STATE'')) (Inl (Fault ''SHUTDOWN_STATE''))
                      (Inr ()) (Inr ()))
            (web_runner []) False
            [Event [''eventname'' \<mapsto> ''PROCESS_STATE_EXITED''],
             Event [''eventname'' \<mapsto> ''TICK_30'']] [])
     = Blocked
   \<and> acks (snd (run_loop (const_env (Inl (Fault ''SHUTDOWN_STATE'')) (Inl (Fault ''SHUTDOWN_STATE''))
                      (Inr ()) (Inr ()))
            (web_runner []) False
            [Event [''eventname'' \<mapsto> ''PROCESS_STATE_EXITED''],
             Event [''eventname'' \<mapsto> ''TICK_30'']] []))
     = 2"
proof -
  have h1: "[''eventname'' \<mapsto> ''PROCESS_STATE_EXITED''] EVENT_NAME_KEY = Some ''PROCESS_STATE_EXITED''"
    by (simp add: EVENT_NAME_KEY_def)
  have h2: "''PROCESS_STATE_EXITED'' \<notin> TICK_EVENTS"
    by (simp add: TICK_EVENTS_def)
  have h3: "list_all is_unknown_event [Event [''eventname'' \<mapsto> ''TICK_30'']]"
    by (simp add: EVENT_NAME_KEY_def TICK_EVENTS_def)
  have a0: "acks [] = 0"
    by (simp add: acks_def)
  show ?thesis
    using unknown_event_is_acknowledged
            [of "[''eventname'' \<mapsto> ''PROCESS_STATE_EXITED'']" "''PROCESS_STATE_EXITED''"
                "const_env (Inl (Fault ''SHUTDOWN_STATE'')) (Inl (Fault ''SHUTDOWN_STATE''))
                   (Inr ()) (Inr ())"
                "web_runner []" "[Event [''eventname'' \<mapsto> ''TICK_30'']]" "[]", OF h1 h2]
          h3 a0
    by (simp add: EVENT_NAME_KEY_def TICK_EVENTS_def acks_def)
qed

subsection \<open>Headers without an event name\<close>

text \<open>
  Claim C9. When the headers of a received event have no \<^verbatim>\<open>eventname\<close> key, indexing
  them raises \<^verbatim>\<open>KeyError\<close>, which nothing catches: the loop and \<^verbatim>\<open>run\<close> end with
  that exception, and no acknowledgement is written for the event.
\<close>

theorem missing_eventname_ends_the_loop:
  assumes "headers EVENT_NAME_KEY = None"
  shows "run_loop env self False (Event headers # ins) tr
           = (Crashed (KeyError ''eventname''), tr @ [Wait])
         \<and> run env self (Event headers # ins)
           = (Crashed (KeyError ''eventname''),
              [Log (''Starting the health check for '' @ process_group self
                    @ '' process group. Checks config: '' @ checks_config self),
               Log ''Installing signal handlers.'', Wait])"
  using assms by (simp add: run_def install_signal_handlers_def EVENT_NAME_KEY_def)

theorem missing_eventname_ends_the_loop_witness:
  "run (const_env (Inr []) (Inr (web_app 20)) (Inr ()) (Inr ())) (web_runner [])
     [Event [''ver'' \<mapsto> ''3.0''], Event [''eventname'' \<mapsto> ''TICK_5'']]
   = (Crashed (KeyError ''eventname''),
      [Log ''Starting the health check for web process group. Checks config: []'',
       Log ''Installing signal handlers.'', Wait])"
  using missing_eventname_ends_the_loop
          [of "[''ver'' \<mapsto> ''3.0'']" "const_env (Inr []) (Inr (web_app 20)) (Inr ()) (Inr ())"
              "web_runner []" "[Event [''eventname'' \<mapsto> ''TICK_5'']]" "[]"]
  by (simp add: EVENT_NAME_KEY_def web_runner_def)

subsection \<open>The main loop\<close>

text \<open>A check cycle whose enumeration answers returns normally.\<close>

lemma check_processes_returns:
  assumes "getAllProcessInfo env tr = Inr all_specs"
  shows "fst (check_processes env self tr) = Inr ()"
  using assms
  by (simp add: check_processes_def get_process_spec_list_def check_and_restart_returns)

lemma acks_check_processes: "acks (snd (check_processes env self tr)) = acks tr"
proof (cases "getAllProcessInfo env tr")
  case (Inl e)
  then show ?thesis
    by (simp add: check_processes_def get_process_spec_list_def acks_def)
next
  case (Inr all_specs)
  then show ?thesis
    by (simp add: check_processes_def get_process_spec_list_def acks_check_and_restart
          acks_pool_submit_all acks_append)
       (simp add: acks_def)
qed

text \<open>
  \<^verbatim>\<open>run\<close> calls \<^verbatim>\<open>_check_processes\<close> outside any \<^verbatim>\<open>try\<close> block, and
  \<^verbatim>\<open>_get_process_spec_list\<close> does not guard \<^verbatim>\<open>getAllProcessInfo\<close>: an exception
  of the enumeration leaves the loop, before the acknowledgement.
\<close>

lemma enumeration_fault_ends_the_loop:
  assumes "headers EVENT_NAME_KEY = Some event_type"
    and "event_type \<in> TICK_EVENTS"
    and "getAllProcessInfo env (tr @ [Wait]) = Inl e"
  shows "run_loop env self False (Event headers # ins) tr
           = (Crashed e, tr @ [Wait, Rpc GetAllProcessInfo])"
  using assms by (simp add: check_processes_def get_process_spec_list_def)

text \<open>Once the stop event is set the loop is left, whatever the inputs.\<close>

lemma run_loop_stopped: "fst (run_loop env self True ins tr) = Exited"
proof (induction ins arbitrary: tr)
  case Nil
  show ?case by simp
next
  case (Cons i ins)
  show ?case by (cases i) (simp_all add: Cons.IH)
qed

lemma run_loop_alive:
  assumes enum: "\<forall>t. \<exists>all_specs. getAllProcessInfo env t = Inr all_specs"
    and hdr: "\<forall>h. Event h \<in> set ins \<longrightarrow> h EVENT_NAME_KEY \<noteq> None"
  shows "fst (run_loop env self False ins tr) = (if list_ex is_signal ins then Exited else Blocked)
       \<and> (\<not> list_ex is_signal ins \<longrightarrow>
            acks (snd (run_loop env self False ins tr)) = acks tr + length ins)"
  using hdr
proof (induction ins arbitrary: tr)
  case Nil
  show ?case by (simp add: acks_def)
next
  case (Cons i ins)
  from Cons.prems have hdr': "\<forall>h. Event h \<in> set ins \<longrightarrow> h EVENT_NAME_KEY \<noteq> None"
    by simp
  note IH = Cons.IH [OF hdr']
  show ?case
  proof (cases i)
    case (Signalled s)
    then show ?thesis by (simp add: run_loop_stopped)
  next
    case (Interrupted s)
    then show ?thesis by simp
  next
    case (Event h)
    with Cons.prems obtain k where k: "h EVENT_NAME_KEY = Some k"
      by auto
    show ?thesis
    proof (cases "k \<in> TICK_EVENTS")
      case False
      then show ?thesis
        using Event k IH [of "tr @ [Wait, Log (''Received unsupported event type: '' @ k), Ack]"]
        by (simp add: acks_def)
    next
      case True
      obtain r t where rt: "check_processes env self (tr @ [Wait]) = (r, t)"
        by (cases "check_processes env self (tr @ [Wait])")
      from enum obtain all_specs where "getAllProcessInfo env (tr @ [Wait]) = Inr all_specs"
        by blast
      then have r: "r = Inr ()"
        using check_processes_returns [of env "tr @ [Wait]" all_specs self] rt by simp
      have t: "acks t = acks tr"
        using acks_check_processes [of env self "tr @ [Wait]"] rt by (simp add: acks_def)
      show ?thesis
        using Event k True rt r t IH [of "t @ [Ack]"]
        by (simp add: acks_def)
    qed
  qed
qed

text \<open>
  Claim C1, as amended. In a run whose events all carry an \<^verbatim>\<open>eventname\<close> header and in
  which the enumeration \<^verbatim>\<open>getAllProcessInfo\<close> always answers, no error of a check and
  no error of the restart calls (\<^verbatim>\<open>getProcessInfo\<close>, \<^verbatim>\<open>stopProcess\<close>,
  \<^verbatim>\<open>startProcess\<close>) ends the daemon: \<^verbatim>\<open>run\<close> returns exactly when a signal is among
  the inputs, and otherwise the loop has acknowledged every event and is waiting for the
  next one.
\<close>

theorem only_the_stop_signal_ends_the_loop:
  assumes "\<forall>t. \<exists>all_specs. getAllProcessInfo env t = Inr all_specs"
    and "\<forall>h. Event h \<in> set ins \<longrightarrow> h EVENT_NAME_KEY \<noteq> None"
  shows "fst (run env self ins) = (if list_ex is_signal ins then Exited else Blocked)
       \<and> (\<not> list_ex is_signal ins \<longrightarrow> acks (snd (run env self ins)) = length ins)"
proof -
  let ?tr1 = "install_signal_handlers
                [Log (''Starting the health check for '' @ process_group self
                      @ '' process group. Checks config: '' @ checks_config self)]"
  obtain r t where rt: "run_loop env self False ins ?tr1 = (r, t)"
    by (cases "run_loop env self False ins ?tr1")
  have a0: "acks ?tr1 = 0"
    by (simp add: install_signal_handlers_def acks_def)
  from run_loop_alive [OF assms, of self ?tr1] rt a0
  have r: "r = (if list_ex is_signal ins then Exited else Blocked)"
    and t: "\<not> list_ex is_signal ins \<longrightarrow> acks t = length ins"
    by simp_all
  show ?thesis
    using rt r t by (simp add: run_def Let_def acks_def)
qed


theorem only_the_stop_signal_ends_the_loop_witness:
  "fst (run (const_env (Inr [web_app 20]) (Inl (Fault ''BAD_NAME'')) (Inr ()) (Inr ()))
          (web_runner [const_check ''http'' (Inl (OtherError ''timed out'')),
                       const_check ''mem'' (Inr False)])
          [Event [''eventname'' \<mapsto> ''TICK_60''], Event [''eventname'' \<mapsto> ''TICK_60'']])
     = Blocked
   \<and> acks (snd (run (const_env (Inr [web_app 20]) (Inl (Fault ''BAD_NAME'')) (Inr ()) (Inr ()))
          (web_runner [const_check ''http'' (Inl (OtherError ''timed out'')),
                       const_check ''mem'' (Inr False)])
          [Event [''eventname'' \<mapsto> ''TICK_60''], Event [''eventname'' \<mapsto> ''TICK_60'']]))
     = 2
   \<and> fst (run (const_env (Inr [web_app 20]) (Inl (Fault ''BAD_NAME'')) (Inr ()) (Inr ()))
          (web_runner [const_check ''mem'' (Inr False)])
          [Event [''eventname'' \<mapsto> ''TICK_60''], Interrupted SIGTERM])
     = Exited"
proof -
  let ?env = "const_env (Inr [web_app 20]) (Inl (Fault ''BAD_NAME'')) (Inr ()) (Inr ())"
  let ?ticks = "[Event [''eventname'' \<mapsto> ''TICK_60''], Event [''eventname'' \<mapsto> ''TICK_60'']]"
  let ?stop = "[Event [''eventname'' \<mapsto> ''TICK_60''], Interrupted SIGTERM]"
  have enum: "\<forall>t. \<exists>all_specs. getAllProcessInfo ?env t = Inr all_specs"
    by (simp add: const_env_def)
  have hdr1: "\<forall>h. Event h \<in> set ?ticks \<longrightarrow> h EVENT_NAME_KEY \<noteq> None"
    by (simp add: EVENT_NAME_KEY_def)
  have hdr2: "\<forall>h. Event h \<in> set ?stop \<longrightarrow> h EVENT_NAME_KEY \<noteq> None"
    by (simp add: EVENT_NAME_KEY_def)
  show ?thesis
    using only_the_stop_signal_ends_the_loop [OF enum hdr1]
          only_the_stop_signal_ends_the_loop [OF enum hdr2]
    by simp
qed

text \<open>
  Without the condition on the enumeration the statement fails. Two ticks arrive and the
  supervisor answers \<^verbatim>\<open>getAllProcessInfo\<close> with a fault: the fault leaves \<^verbatim>\<open>run\<close>
  at the first tick, which is not acknowledged, and the second tick is never read.
\<close>

theorem enumeration_fault_ends_the_daemon:
  "run (const_env (Inl (Fault ''SHUTDOWN_STATE'')) (Inr (web_app 20)) (Inr ()) (Inr ()))
       (web_runner [const_check ''http'' (Inr True)])
       [Event [''eventname'' \<mapsto> ''TICK_60''], Event [''eventname'' \<mapsto> ''TICK_60'']]
   = (Crashed (Fault ''SHUTDOWN_STATE''),
      [Log ''Starting the health check for web process group. Checks config: []'',
       Log ''Installing signal handlers.'', Wait, Rpc GetAllProcessInfo])"
  by (simp add: run_def install_signal_handlers_def web_runner_def const_env_def
        EVENT_NAME_KEY_def TICK_EVENTS_def check_processes_def get_process_spec_list_def)

subsection \<open>The format of a log line\<close>

text \<open>
  Claim C10. \<^verbatim>\<open>_log\<close> renders the clock with \<^verbatim>\<open>'%Y/%M/%d %H:%M:%S'\<close>: the second
  field of the date is the minute, and the month does not appear in the line. The line
  written to the error stream is the timestamp, the daemon name in square brackets, the
  message and a newline, and it is flushed before \<^verbatim>\<open>_log\<close> returns.
\<close>

theorem log_line_format:
  "log self now msg stderr =
     \<lparr>pending = [],
      flushed = flushed stderr @ pending stderr @
        zero_pad 4 (str_nat (year now)) @ ''/'' @ zero_pad 2 (str_nat (minute now)) @ ''/'' @
        zero_pad 2 (str_nat (day now)) @ '' '' @ zero_pad 2 (str_nat (hour now)) @ '':'' @
        zero_pad 2 (str_nat (minute now)) @ '':'' @ zero_pad 2 (str_nat (second now)) @
        '' ['' @ runner_name self @ ''] '' @ msg @ [CHR 0x0A]\<rparr>
   \<and> log self (now\<lparr>month := m\<rparr>) msg stderr = log self now msg stderr"
  by (simp add: log_def directive_def stderr_write_def stderr_flush_def)

text \<open>The line for 6 November 2026, 09:41:07.\<close>

lemma log_example:
  "log (web_runner []) \<lparr>year = 2026, month = 11, day = 6, hour = 9, minute = 41, second = 7\<rparr>
       ''Done.'' \<lparr>pending = [], flushed = []\<rparr>
   = \<lparr>pending = [], flushed = ''2026/41/06 09:41:07 [web_check] Done.'' @ [CHR 0x0A]\<rparr>"
  by (simp add: log_def directive_def stderr_write_def stderr_flush_def web_runner_def
        zero_pad_def str_nat.simps digit_char_def)

end
